theory Spec2Isabelle
  imports Main "HOL-Library.DAList"
begin

section \<open>The visibility system of createVisibility.tsx\<close>

text \<open>
  The module keeps a table of boolean flags indexed by block name
  (\<^verbatim>\<open>type VisibilityState = Record<string, boolean>\<close>). A JavaScript object of that type
  is an ordered list of own properties with pairwise different keys, which is the type
  \<^typ>\<open>(string, bool) alist\<close>: \<^const>\<open>DAList.lookup\<close> reads a property (\<open>None\<close> is
  \<^verbatim>\<open>undefined\<close>), \<^const>\<open>DAList.update\<close> assigns one (in place when the key exists,
  at the end otherwise). JavaScript enumerates keys that are array indices before the
  others; the model keeps the order of insertion, and only the text that
  \<^verbatim>\<open>JSON.stringify\<close> writes depends on it. The values of a table are booleans, as the
  type says.
\<close>

type_synonym VisibilityState = "(string, bool) alist"

subsection \<open>Property reads and assignments\<close>

text \<open>
  A property read \<^verbatim>\<open>obj[name]\<close> goes through the prototype chain: when the table has no
  own entry for the name, the read finds the member of \<^verbatim>\<open>Object.prototype\<close> of that
  name, if there is one. Such a member is a function (for \<^verbatim>\<open>__proto__\<close> the prototype
  object itself): it is neither \<^verbatim>\<open>undefined\<close> nor \<^verbatim>\<open>null\<close>, and it is truthy. The
  names are those of ECMAScript, Annex B included.
\<close>

datatype js_value = Undefined | Boolean bool | Inherited

definition Object_prototype :: "string list" where
  "Object_prototype =
     [''constructor'', ''__defineGetter__'', ''__defineSetter__'', ''hasOwnProperty'',
      ''__lookupGetter__'', ''__lookupSetter__'', ''isPrototypeOf'', ''propertyIsEnumerable'',
      ''toString'', ''valueOf'', ''__proto__'', ''toLocaleString'']"

definition Get :: "VisibilityState \<Rightarrow> string \<Rightarrow> js_value" where
  "Get obj name =
     (case DAList.lookup obj name of
        Some b \<Rightarrow> Boolean b
      | None \<Rightarrow> if name \<in> set Object_prototype then Inherited else Undefined)"

text \<open>
  An assignment \<^verbatim>\<open>obj[name] = v\<close> sets or creates an own entry, except for the name
  \<^verbatim>\<open>__proto__\<close> on an object without such an own entry: there it calls the setter of
  \<^verbatim>\<open>Object.prototype\<close>, which ignores a boolean.
\<close>

definition PutValue :: "VisibilityState \<Rightarrow> string \<Rightarrow> bool \<Rightarrow> VisibilityState" where
  "PutValue obj name v =
     (if name = ''__proto__'' \<and> DAList.lookup obj name = None then obj
      else DAList.update name v obj)"

text \<open>\<open>truthy\<close> is the conversion to a boolean, \<open>js_not v\<close> is \<^verbatim>\<open>!v\<close>, \<open>nullish v d\<close> is \<^verbatim>\<open>v ?? d\<close>.\<close>

definition truthy :: "js_value \<Rightarrow> bool" where
  "truthy v = (case v of Undefined \<Rightarrow> False | Boolean b \<Rightarrow> b | Inherited \<Rightarrow> True)"

definition js_not :: "js_value \<Rightarrow> bool" where
  "js_not v = (\<not> truthy v)"

definition nullish :: "js_value \<Rightarrow> bool \<Rightarrow> js_value" where
  "nullish v d = (case v of Undefined \<Rightarrow> Boolean d | Boolean b \<Rightarrow> Boolean b | Inherited \<Rightarrow> Inherited)"

text \<open>
  The state cell of the provider is declared as a \<^verbatim>\<open>VisibilityState\<close>, but it is filled
  with what \<^verbatim>\<open>JSON.parse\<close> returns, which is not checked: when the stored text is
  \<^verbatim>\<open>null\<close> the state is \<^verbatim>\<open>null\<close>, and a property read on it throws \<^verbatim>\<open>TypeError\<close>.
  Stored texts that denote other JSON values (numbers, strings, arrays, objects with
  values that are not booleans) are not modelled.
\<close>

datatype state = Null | Table VisibilityState

subsection \<open>Exceptions and the browser environment\<close>

text \<open>
  Four kinds of exception occur: the \<^verbatim>\<open>Error\<close> that \<^verbatim>\<open>useVisibility\<close> throws itself,
  the \<^verbatim>\<open>SyntaxError\<close> of \<^verbatim>\<open>JSON.parse\<close>, the \<^verbatim>\<open>DOMException\<close> with which
  \<^verbatim>\<open>localStorage\<close> refuses a read (access denied) or a write (quota exceeded), and the
  \<^verbatim>\<open>TypeError\<close> of a property read on \<^verbatim>\<open>null\<close>.
\<close>

datatype error = Error string | SyntaxError | DOMException | TypeError

text \<open>
  \<^verbatim>\<open>localStorage\<close> is a string-to-string store. Whether a call throws is decided by the
  browser, so the environment carries one predicate for reads and one for writes. Every
  call is recorded in \<open>calls\<close>, as the \<^verbatim>\<open>jest.fn\<close> mock of the test suite does, and
  \<open>console\<close> collects the messages given to \<^verbatim>\<open>console.error\<close>.
\<close>

datatype call = GetItem string | SetItem string string

record env =
  storage :: "string \<rightharpoonup> string"
  getItem_throws :: "string \<Rightarrow> bool"
  setItem_throws :: "string \<Rightarrow> string \<Rightarrow> bool"
  calls :: "call list"
  console :: "string list"

definition localStorage_getItem :: "string \<Rightarrow> env \<Rightarrow> (error + string option) \<times> env" where
  "localStorage_getItem key e =
     (if getItem_throws e key then Inl DOMException else Inr (storage e key),
      e\<lparr>calls := calls e @ [GetItem key]\<rparr>)"

definition localStorage_setItem :: "string \<Rightarrow> string \<Rightarrow> env \<Rightarrow> (error + unit) \<times> env" where
  "localStorage_setItem key v e =
     (if setItem_throws e key v
      then (Inl DOMException, e\<lparr>calls := calls e @ [SetItem key v]\<rparr>)
      else (Inr (), e\<lparr>storage := (storage e)(key \<mapsto> v), calls := calls e @ [SetItem key v]\<rparr>))"

definition console_error :: "string \<Rightarrow> env \<Rightarrow> env" where
  "console_error msg e = e\<lparr>console := console e @ [msg]\<rparr>"

text \<open>An environment in which no call throws, holding the given items.\<close>

definition quiet_env :: "(string \<rightharpoonup> string) \<Rightarrow> env" where
  "quiet_env items =
     \<lparr>storage = items, getItem_throws = (\<lambda>key. False), setItem_throws = (\<lambda>key v. False),
      calls = [], console = []\<rparr>"

subsection \<open>usePersistentState\<close>

text \<open>
  \<^verbatim>\<open>usePersistentState<T>(key, initialValue)\<close> is generic in the type \<open>T\<close> of the state.
  \<^verbatim>\<open>JSON.parse\<close> and \<^verbatim>\<open>JSON.stringify\<close> belong to the JavaScript runtime, so the hook
  takes them as the parameters \<open>parse\<close> (which returns a value of \<open>T\<close> or throws) and
  \<open>stringify\<close>.

  \<open>load\<close> is the body of the \<^verbatim>\<open>try\<close> block of the state initialiser:
  \<^verbatim>\<open>
    const persistedValue = localStorage.getItem(key);
    return persistedValue !== null ? JSON.parse(persistedValue) : initialValue;
  \<close>
\<close>

definition load :: "(string \<Rightarrow> error + 'a) \<Rightarrow> string \<Rightarrow> 'a \<Rightarrow> env \<Rightarrow> (error + 'a) \<times> env" where
  "load parse key initialValue e =
     (case localStorage_getItem key e of
        (Inl err, e') \<Rightarrow> (Inl err, e')
      | (Inr None, e') \<Rightarrow> (Inr initialValue, e')
      | (Inr (Some persistedValue), e') \<Rightarrow> (parse persistedValue, e'))"

text \<open>
  The initialiser given to \<^verbatim>\<open>useState\<close>. The test \<^verbatim>\<open>!key\<close> holds for \<^verbatim>\<open>null\<close> and for
  the empty string. The \<^verbatim>\<open>catch\<close> clause logs and returns \<open>initialValue\<close>.
\<close>

fun usePersistentState_init ::
  "(string \<Rightarrow> error + 'a) \<Rightarrow> string option \<Rightarrow> 'a \<Rightarrow> env \<Rightarrow> 'a \<times> env" where
  "usePersistentState_init parse None initialValue e = (initialValue, e)"
| "usePersistentState_init parse (Some key) initialValue e =
     (if key = [] then (initialValue, e)
      else (case load parse key initialValue e of
              (Inl err, e') \<Rightarrow>
                (initialValue, console_error (''Error retrieving '' @ key @ '' from localStorage:'') e')
            | (Inr v, e') \<Rightarrow> (v, e')))"

text \<open>
  The effect
  \<^verbatim>\<open>
    if (!key) return;
    try { localStorage.setItem(key, JSON.stringify(state)); }
    catch (error) { console.error(`Error saving ${key} to localStorage:`, error); }
  \<close>
\<close>

fun usePersistentState_effect :: "('a \<Rightarrow> string) \<Rightarrow> string option \<Rightarrow> 'a \<Rightarrow> env \<Rightarrow> env" where
  "usePersistentState_effect stringify None state e = e"
| "usePersistentState_effect stringify (Some key) state e =
     (if key = [] then e
      else (case localStorage_setItem key (stringify state) e of
              (Inl err, e') \<Rightarrow> console_error (''Error saving '' @ key @ '' to localStorage:'') e'
            | (Inr u, e') \<Rightarrow> e'))"

subsection \<open>VisibilityProvider\<close>

text \<open>
  A mounted provider is its \<^verbatim>\<open>persistKey\<close> prop and the state cell of its
  \<^verbatim>\<open>usePersistentState\<close> hook.
\<close>

record provider =
  persistKey :: "string option"
  visibilityState :: state

text \<open>
  The object spread \<^verbatim>\<open>{...a, ...b}\<close> copies the properties of \<open>a\<close> and then defines
  those of \<open>b\<close> in their order, as own entries.
\<close>

lift_definition spread :: "VisibilityState \<Rightarrow> VisibilityState \<Rightarrow> VisibilityState" is
  "\<lambda>a b. fold (\<lambda>(k, v). AList.update k v) b a"
proof -
  fix a b :: "(string \<times> bool) list"
  assume "(distinct \<circ> map fst) a"
  then show "(distinct \<circ> map fst) (fold (\<lambda>(k, v). AList.update k v) b a)"
    by (induction b arbitrary: a) (auto simp: distinct_update)
qed

text \<open>
  \<^verbatim>\<open>const mergedInitialState = { ...registeredBlocks, ...initialState };\<close>
  where the prop \<^verbatim>\<open>initialState\<close> defaults to \<^verbatim>\<open>{}\<close>.
\<close>

definition mergedInitialState :: "VisibilityState \<Rightarrow> VisibilityState option \<Rightarrow> VisibilityState" where
  "mergedInitialState registeredBlocks initialState =
     spread registeredBlocks (case initialState of None \<Rightarrow> DAList.empty | Some i \<Rightarrow> i)"

text \<open>\<open>GetV s name\<close> is the read \<^verbatim>\<open>s[name]\<close> on the value in the state cell.\<close>

fun GetV :: "state \<Rightarrow> string \<Rightarrow> error + js_value" where
  "GetV Null name = Inl TypeError"
| "GetV (Table obj) name = Inr (Get obj name)"

text \<open>
  The state update of \<^verbatim>\<open>toggleVisibility\<close>:
  \<^verbatim>\<open>prevState => ({ ...prevState, [name]: !prevState[name] })\<close>.
  The spread of \<^verbatim>\<open>null\<close> copies nothing and does not throw; the read
  \<^verbatim>\<open>prevState[name]\<close> does. The computed key defines an own entry, whatever the name.
\<close>

fun toggleVisibility :: "string \<Rightarrow> state \<Rightarrow> error + state" where
  "toggleVisibility name Null = Inl TypeError"
| "toggleVisibility name (Table prevState) =
     Inr (Table (DAList.update name (js_not (Get prevState name)) prevState))"

text \<open>
  Mounting runs the state initialiser and then, after the first render, the effect.
  The props \<^verbatim>\<open>persistKey = null\<close> and \<^verbatim>\<open>initialState = {}\<close> are optional.
\<close>

definition VisibilityProvider_state ::
  "(string \<Rightarrow> error + state) \<Rightarrow> VisibilityState \<Rightarrow> VisibilityState option \<Rightarrow>
   string option \<Rightarrow> env \<Rightarrow> state \<times> env" where
  "VisibilityProvider_state parse registeredBlocks initialState key e =
     usePersistentState_init parse key (Table (mergedInitialState registeredBlocks initialState)) e"

definition VisibilityProvider_mount ::
  "(string \<Rightarrow> error + state) \<Rightarrow> (state \<Rightarrow> string) \<Rightarrow> VisibilityState \<Rightarrow>
   VisibilityState option \<Rightarrow> string option \<Rightarrow> env \<Rightarrow> provider \<times> env" where
  "VisibilityProvider_mount parse stringify registeredBlocks initialState key e =
     (case VisibilityProvider_state parse registeredBlocks initialState key e of
        (s, e') \<Rightarrow>
          (\<lparr>persistKey = key, visibilityState = s\<rparr>, usePersistentState_effect stringify key s e'))"

text \<open>
  A call of \<^verbatim>\<open>toggleVisibility(name)\<close> replaces the state by a new object, so the
  provider renders again and the effect, which depends on \<^verbatim>\<open>[key, state]\<close>, runs again.
  When the update throws, the exception leaves the provider: there is no new state and
  no effect.
\<close>

definition VisibilityProvider_toggle ::
  "(state \<Rightarrow> string) \<Rightarrow> string \<Rightarrow> provider \<times> env \<Rightarrow> error + provider \<times> env" where
  "VisibilityProvider_toggle stringify name pe =
     (case pe of (p, e) \<Rightarrow>
        (case toggleVisibility name (visibilityState p) of
           Inl err \<Rightarrow> Inl err
         | Inr s \<Rightarrow>
             Inr (p\<lparr>visibilityState := s\<rparr>, usePersistentState_effect stringify (persistKey p) s e)))"

text \<open>
  A session: the provider is mounted and the listed names are toggled in turn, up to
  the first toggle that throws.
\<close>

fun VisibilityProvider_toggles ::
  "(state \<Rightarrow> string) \<Rightarrow> string list \<Rightarrow> provider \<times> env \<Rightarrow> error + provider \<times> env" where
  "VisibilityProvider_toggles stringify [] pe = Inr pe"
| "VisibilityProvider_toggles stringify (name # names) pe =
     (case VisibilityProvider_toggle stringify name pe of
        Inl err \<Rightarrow> Inl err
      | Inr pe' \<Rightarrow> VisibilityProvider_toggles stringify names pe')"

definition VisibilityProvider_run ::
  "(string \<Rightarrow> error + state) \<Rightarrow> (state \<Rightarrow> string) \<Rightarrow> VisibilityState \<Rightarrow>
   VisibilityState option \<Rightarrow> string option \<Rightarrow> string list \<Rightarrow> env \<Rightarrow> error + provider \<times> env" where
  "VisibilityProvider_run parse stringify registeredBlocks initialState key names e =
     VisibilityProvider_toggles stringify names
       (VisibilityProvider_mount parse stringify registeredBlocks initialState key e)"

subsection \<open>The context and the hooks that read it\<close>

text \<open>
  The context value is \<^verbatim>\<open>{ visibilityState, toggleVisibility }\<close>, or \<^verbatim>\<open>undefined\<close> (the
  default of \<^verbatim>\<open>createContext\<close>) outside every provider. The second field is the
  state update that a call requests.
\<close>

record VisibilityContextType =
  ctx_visibilityState :: state
  ctx_toggleVisibility :: "string \<Rightarrow> state \<Rightarrow> error + state"

definition VisibilityProvider_value :: "provider \<Rightarrow> VisibilityContextType" where
  "VisibilityProvider_value p =
     \<lparr>ctx_visibilityState = visibilityState p, ctx_toggleVisibility = toggleVisibility\<rparr>"

definition useVisibility :: "VisibilityContextType option \<Rightarrow> error + VisibilityContextType" where
  "useVisibility context =
     (case context of
        None \<Rightarrow> Inl (Error ''useVisibility must be used within a VisibilityProvider'')
      | Some c \<Rightarrow> Inr c)"

text \<open>
  \<^verbatim>\<open>useBlockVisibility\<close> returns \<^verbatim>\<open>visibilityState[name] ?? defaultVisible\<close>.
\<close>

definition useBlockVisibility ::
  "string \<Rightarrow> bool \<Rightarrow> VisibilityContextType option \<Rightarrow> error + js_value" where
  "useBlockVisibility name defaultVisible context =
     (case useVisibility context of
        Inl err \<Rightarrow> Inl err
      | Inr c \<Rightarrow>
          (case GetV (ctx_visibilityState c) name of
             Inl err \<Rightarrow> Inl err
           | Inr v \<Rightarrow> Inr (nullish v defaultVisible)))"

text \<open>
  \<^verbatim>\<open>useToggleState\<close> returns \<^verbatim>\<open>{ isVisible, toggle }\<close> with
  \<^verbatim>\<open>toggle = () => toggleVisibility(name)\<close>.
\<close>

definition useToggleState ::
  "string \<Rightarrow> bool \<Rightarrow> VisibilityContextType option \<Rightarrow>
   error + js_value \<times> (state \<Rightarrow> error + state)" where
  "useToggleState name defaultVisible context =
     (case useVisibility context of
        Inl err \<Rightarrow> Inl err
      | Inr c \<Rightarrow>
          (case GetV (ctx_visibilityState c) name of
             Inl err \<Rightarrow> Inl err
           | Inr v \<Rightarrow> Inr (nullish v defaultVisible, ctx_toggleVisibility c name)))"

text \<open>
  Of the component \<^verbatim>\<open>NamedBlock\<close> the model keeps whether it renders its children
  (\<^verbatim>\<open>if (!isVisible) return null\<close>), of \<^verbatim>\<open>NamedBlockToggle\<close> whether its
  \<^verbatim>\<open>data-state\<close> is \<^verbatim>\<open>visible\<close> and the update its click requests.
\<close>

definition NamedBlock :: "string \<Rightarrow> bool \<Rightarrow> VisibilityContextType option \<Rightarrow> error + bool" where
  "NamedBlock name defaultVisible context =
     (case useBlockVisibility name defaultVisible context of
        Inl err \<Rightarrow> Inl err
      | Inr isVisible \<Rightarrow> Inr (truthy isVisible))"

definition NamedBlockToggle ::
  "string \<Rightarrow> bool \<Rightarrow> VisibilityContextType option \<Rightarrow>
   error + bool \<times> (state \<Rightarrow> error + state)" where
  "NamedBlockToggle name defaultVisible context =
     (case useToggleState name defaultVisible context of
        Inl err \<Rightarrow> Inl err
      | Inr (isVisible, toggle) \<Rightarrow> Inr (truthy isVisible, toggle))"

text \<open>
  \<^verbatim>\<open>createVisibilityBlock(name, defaultVisible = true)\<close> records the default with
  \<^verbatim>\<open>registeredBlocks[name] = defaultVisible\<close> and returns the pair of components.
\<close>

definition createVisibilityBlock ::
  "string \<Rightarrow> bool option \<Rightarrow> VisibilityState \<Rightarrow>
   VisibilityState \<times> (VisibilityContextType option \<Rightarrow> error + bool) \<times>
   (VisibilityContextType option \<Rightarrow> error + bool \<times> (state \<Rightarrow> error + state))" where
  "createVisibilityBlock name defaultVisible registeredBlocks =
     (let d = (case defaultVisible of None \<Rightarrow> True | Some b \<Rightarrow> b)
      in (PutValue registeredBlocks name d, NamedBlock name d, NamedBlockToggle name d))"

subsection \<open>The persisted layout: JSON.stringify and JSON.parse\<close>

text \<open>
  Modelled from the spec: \<^verbatim>\<open>JSON.stringify\<close> and \<^verbatim>\<open>JSON.parse\<close> are functions of
  the JavaScript runtime and not part of the module. The specification fixes the
  persisted layout as one serialized JSON object of shape
  \<^verbatim>\<open>{ [blockName: string]: boolean }\<close>. \<open>JSON_stringify\<close> writes a table in that
  layout the way \<^verbatim>\<open>JSON.stringify\<close> does: the properties in their order, without white
  space, the keys quoted with the escapes of \<^verbatim>\<open>QuoteJSONString\<close>; the state
  \<^verbatim>\<open>null\<close> is written as \<^verbatim>\<open>null\<close>. Names are HOL strings, so a code unit is below
  256.
\<close>

definition hexDigit :: "nat \<Rightarrow> char" where
  "hexDigit d = ''0123456789abcdef'' ! d"

definition UnicodeEscape :: "char \<Rightarrow> string" where
  "UnicodeEscape c =
     (let n = (of_char c :: nat)
      in [CHR 0x5C, CHR ''u'', hexDigit (n div 4096), hexDigit (n div 256 mod 16),
          hexDigit (n div 16 mod 16), hexDigit (n mod 16)])"

definition QuoteJSONChar :: "char \<Rightarrow> string" where
  "QuoteJSONChar c =
     (if c = CHR 0x08 then [CHR 0x5C, CHR ''b'']
      else if c = CHR 0x09 then [CHR 0x5C, CHR ''t'']
      else if c = CHR 0x0A then [CHR 0x5C, CHR ''n'']
      else if c = CHR 0x0C then [CHR 0x5C, CHR ''f'']
      else if c = CHR 0x0D then [CHR 0x5C, CHR ''r'']
      else if c = CHR 0x22 then [CHR 0x5C, CHR 0x22]
      else if c = CHR 0x5C then [CHR 0x5C, CHR 0x5C]
      else if (of_char c :: nat) < 32 then UnicodeEscape c
      else [c])"

definition QuoteJSONString :: "string \<Rightarrow> string" where
  "QuoteJSONString s = CHR 0x22 # concat (map QuoteJSONChar s) @ [CHR 0x22]"

definition SerializeJSONProperty :: "string \<times> bool \<Rightarrow> string" where
  "SerializeJSONProperty p =
     (case p of (k, b) \<Rightarrow> QuoteJSONString k @ '':'' @ (if b then ''true'' else ''false''))"

fun join_comma :: "string list \<Rightarrow> string" where
  "join_comma [] = []"
| "join_comma [x] = x"
| "join_comma (x # y # ys) = x @ '','' @ join_comma (y # ys)"

text \<open>
  Modelled from the spec: the text saved under \<^verbatim>\<open>persistKey\<close>, "a single serialized
  JSON object", for \<^verbatim>\<open>JSON.stringify(state)\<close>.
\<close>

fun JSON_stringify :: "state \<Rightarrow> string" where
  "JSON_stringify Null = ''null''"
| "JSON_stringify (Table obj) =
     ''{'' @ join_comma (map SerializeJSONProperty (DAList.impl_of obj)) @ ''}''"


text \<open>
  Modelled from the spec: "any structurally-compatible JSON object is accepted as-is;
  malformed JSON causes a StorageError". \<open>JSON_parse\<close> reads a JSON text that denotes
  an object whose values are \<^verbatim>\<open>true\<close> or \<^verbatim>\<open>false\<close>, with the white space and the
  string escapes of the JSON grammar; a key that occurs twice keeps its place and takes
  the later value, as in \<^verbatim>\<open>JSON.parse\<close>. It also reads the text \<^verbatim>\<open>null\<close>, which
  gives the state \<^verbatim>\<open>null\<close>. On every other text it throws \<^verbatim>\<open>SyntaxError\<close>; this
  is what \<^verbatim>\<open>JSON.parse\<close> does on a text that is not JSON, while a JSON text that
  denotes another kind of value, or has a key with a code unit above 255, denotes no
  value of the type \<open>state\<close> and is outside the model.
\<close>

definition is_ws :: "char \<Rightarrow> bool" where
  "is_ws c = (c = CHR 0x20 \<or> c = CHR 0x09 \<or> c = CHR 0x0A \<or> c = CHR 0x0D)"

definition skip_ws :: "string \<Rightarrow> string" where
  "skip_ws cs = dropWhile is_ws cs"

definition hex_value :: "char \<Rightarrow> nat option" where
  "hex_value c =
     (let n = (of_char c :: nat)
      in if 48 \<le> n \<and> n \<le> 57 then Some (n - 48)
         else if 97 \<le> n \<and> n \<le> 102 then Some (n - 87)
         else if 65 \<le> n \<and> n \<le> 70 then Some (n - 55)
         else None)"

definition unescape :: "char \<Rightarrow> char option" where
  "unescape c =
     (if c = CHR 0x22 then Some (CHR 0x22)
      else if c = CHR 0x5C then Some (CHR 0x5C)
      else if c = CHR ''/'' then Some (CHR ''/'')
      else if c = CHR ''b'' then Some (CHR 0x08)
      else if c = CHR ''f'' then Some (CHR 0x0C)
      else if c = CHR ''n'' then Some (CHR 0x0A)
      else if c = CHR ''r'' then Some (CHR 0x0D)
      else if c = CHR ''t'' then Some (CHR 0x09)
      else None)"

definition code_unit :: "char \<Rightarrow> char \<Rightarrow> char \<Rightarrow> char \<Rightarrow> char option" where
  "code_unit a b c d =
     (case (hex_value a, hex_value b, hex_value c, hex_value d) of
        (Some h1, Some h2, Some h3, Some h4) \<Rightarrow>
          (let n = ((h1 * 16 + h2) * 16 + h3) * 16 + h4
           in if n < 256 then Some (char_of n) else None)
      | _ \<Rightarrow> None)"

definition cons_char :: "char \<Rightarrow> (string \<times> string) option \<Rightarrow> (string \<times> string) option" where
  "cons_char c r = (case r of None \<Rightarrow> None | Some (s, rest) \<Rightarrow> Some (c # s, rest))"

fun JSON_chars :: "string \<Rightarrow> (string \<times> string) option" where
  "JSON_chars [] = None"
| "JSON_chars (c # cs) =
     (if c = CHR 0x22 then Some ([], cs)
      else if c = CHR 0x5C then
        (case cs of
           [] \<Rightarrow> None
         | x # r \<Rightarrow>
             if x = CHR ''u'' then
               (case r of
                  h1 # h2 # h3 # h4 # r' \<Rightarrow>
                    (case code_unit h1 h2 h3 h4 of
                       None \<Rightarrow> None
                     | Some u \<Rightarrow> cons_char u (JSON_chars r'))
                | _ \<Rightarrow> None)
             else (case unescape x of None \<Rightarrow> None | Some u \<Rightarrow> cons_char u (JSON_chars r)))
      else if (of_char c :: nat) < 32 then None
      else cons_char c (JSON_chars cs))"


definition JSON_literal :: "string \<Rightarrow> (bool \<times> string) option" where
  "JSON_literal cs =
     (if take 4 cs = ''true'' then Some (True, drop 4 cs)
      else if take 5 cs = ''false'' then Some (False, drop 5 cs)
      else None)"

definition JSON_member :: "string \<Rightarrow> ((string \<times> bool) \<times> string) option" where
  "JSON_member cs =
     (case skip_ws cs of
        [] \<Rightarrow> None
      | q # r \<Rightarrow>
          if q \<noteq> CHR 0x22 then None
          else (case JSON_chars r of
                  None \<Rightarrow> None
                | Some (k, r1) \<Rightarrow>
                    (case skip_ws r1 of
                       [] \<Rightarrow> None
                     | c # r2 \<Rightarrow>
                         if c \<noteq> CHR '':'' then None
                         else (case JSON_literal (skip_ws r2) of
                                 None \<Rightarrow> None
                               | Some (b, r3) \<Rightarrow> Some ((k, b), skip_ws r3)))))"

text \<open>
  A member takes at least one character of the text, so the loop over the members
  terminates.
\<close>

lemma length_skip_ws: "length (skip_ws cs) \<le> length cs"
  by (simp add: skip_ws_def length_dropWhile_le)

lemma length_JSON_chars: "JSON_chars cs = Some (s, r) \<Longrightarrow> length r < length cs"
proof (induction cs arbitrary: s rule: JSON_chars.induct)
  case 1
  then show ?case by simp
next
  case (2 c cs)
  then show ?case
    by (fastforce simp add: cons_char_def split: if_splits list.splits option.splits)
qed

lemma length_JSON_literal: "JSON_literal cs = Some (b, r) \<Longrightarrow> length r \<le> length cs"
  by (auto simp add: JSON_literal_def split: if_splits)

lemma length_JSON_member:
  assumes "JSON_member cs = Some (m, r)"
  shows "length r < length cs"
proof -
  from assms obtain q r0 k r1 c r2 b r3 where
    a: "skip_ws cs = q # r0" and b: "JSON_chars r0 = Some (k, r1)" and
    c: "skip_ws r1 = c # r2" and d: "JSON_literal (skip_ws r2) = Some (b, r3)" and
    e: "r = skip_ws r3"
    by (auto simp add: JSON_member_def split: list.splits if_splits option.splits)
  have "length r \<le> length r3" using e length_skip_ws by simp
  also have "\<dots> \<le> length (skip_ws r2)" using d by (rule length_JSON_literal)
  also have "\<dots> \<le> length r2" by (rule length_skip_ws)
  also have "\<dots> < length (skip_ws r1)" using c by simp
  also have "\<dots> \<le> length r1" by (rule length_skip_ws)
  also have "\<dots> < length r0" using b by (rule length_JSON_chars)
  also have "\<dots> < length (skip_ws cs)" using a by simp
  also have "\<dots> \<le> length cs" by (rule length_skip_ws)
  finally show ?thesis .
qed

function JSON_members :: "VisibilityState \<Rightarrow> string \<Rightarrow> VisibilityState option" where
  "JSON_members obj cs =
     (case JSON_member cs of
        None \<Rightarrow> None
      | Some ((k, b), r) \<Rightarrow>
          (case r of
             [] \<Rightarrow> None
           | c # r' \<Rightarrow>
               if c = CHR '','' then JSON_members (DAList.update k b obj) r'
               else if c = CHR ''}'' then (if skip_ws r' = [] then Some (DAList.update k b obj) else None)
               else None))"
  by pat_completeness auto
termination
proof (relation "measure (\<lambda>(obj, cs). length cs)")
  show "wf (measure (\<lambda>(obj, cs). length cs))" by simp
next
  fix obj :: VisibilityState and cs x2 x y k b c r r'
  assume "JSON_member cs = Some x2" "(x, y) = x2" "(k, b) = x" "y = c # r'"
  then have "JSON_member cs = Some ((k, b), c # r')" by simp
  then have "length (c # r') < length cs" by (rule length_JSON_member)
  then show "((DAList.update k b obj, r'), (obj, cs)) \<in> measure (\<lambda>(obj, cs). length cs)"
    by simp
qed

text \<open>
  Modelled from the spec: the table that a stored text denotes, or the exception for
  "malformed JSON", for \<^verbatim>\<open>JSON.parse(persistedValue)\<close>.
\<close>

definition JSON_parse :: "string \<Rightarrow> error + state" where
  "JSON_parse text =
     (case skip_ws text of
        [] \<Rightarrow> Inl SyntaxError
      | c # r \<Rightarrow>
          if c = CHR ''{'' then
            (case skip_ws r of
               [] \<Rightarrow> Inl SyntaxError
             | c' # r' \<Rightarrow>
                 if c' = CHR ''}'' then
                   (if skip_ws r' = [] then Inr (Table DAList.empty) else Inl SyntaxError)
                 else (case JSON_members DAList.empty r of
                         None \<Rightarrow> Inl SyntaxError
                       | Some obj \<Rightarrow> Inr (Table obj)))
          else if take 4 (c # r) = ''null'' \<and> skip_ws (drop 4 (c # r)) = [] then Inr Null
          else Inl SyntaxError)"

section \<open>Properties\<close>

declare JSON_members.simps [simp del]

subsection \<open>Reading a table\<close>

lemma Get_update:
  "Get (DAList.update n v M) m = (if m = n then Boolean v else Get M m)"
  by (simp add: Get_def lookup_update)

lemma Get_own: "DAList.lookup M n = Some b \<Longrightarrow> Get M n = Boolean b"
  by (simp add: Get_def)

lemma Get_absent:
  "DAList.lookup M n = None \<Longrightarrow> n \<notin> set Object_prototype \<Longrightarrow> Get M n = Undefined"
  by (simp add: Get_def)

lemma Get_inherited:
  "DAList.lookup M n = None \<Longrightarrow> n \<in> set Object_prototype \<Longrightarrow> Get M n = Inherited"
  by (simp add: Get_def)


lemma lookup_PutValue:
  "n \<noteq> ''__proto__'' \<Longrightarrow> DAList.lookup (PutValue R n d) n = Some d"
  by (simp add: PutValue_def)

subsection \<open>Parsing what JSON_stringify wrote\<close>

lemma hex_value_hexDigit: "d < 16 \<Longrightarrow> hex_value (hexDigit d) = Some d"
proof -
  assume "d < 16"
  moreover have "list_all (\<lambda>d. hex_value (hexDigit d) = Some d) [0..<16]"
    by code_simp
  ultimately show ?thesis
    by (simp add: list_all_iff)
qed

lemma code_unit_UnicodeEscape:
  "code_unit (hexDigit (of_char c div 4096)) (hexDigit (of_char c div 256 mod 16))
     (hexDigit (of_char c div 16 mod 16)) (hexDigit (of_char c mod 16)) = Some c"
proof -
  let ?n = "of_char c :: nat"
  have lt: "?n < 256" by (rule nat_of_char_less_256) 
  have a: "?n div 4096 = 0" using lt by (intro div_less) linarith
  have "?n div 256 = 0" using lt by (intro div_less)
  then have b: "?n div 256 mod 16 = 0" by simp
  have c: "?n div 16 mod 16 < 16" and d: "?n mod 16 < 16" by simp_all
  have z: "(0::nat) < 16" by simp
  have c': "?n div 16 < 16" using lt by (simp add: less_mult_imp_div_less) 
  then have e: "?n div 16 mod 16 = ?n div 16" by simp
  have f: "?n div 16 * 16 + ?n mod 16 = ?n" by simp
  show ?thesis
    unfolding code_unit_def a b e
    using lt by (simp add: hex_value_hexDigit[OF c'] hex_value_hexDigit[OF d] hex_value_hexDigit[OF z] f)
qed

lemma JSON_chars_u:
  "code_unit a b c d = Some u \<Longrightarrow>
   JSON_chars (CHR 0x5C # CHR ''u'' # a # b # c # d # r) = cons_char u (JSON_chars r)"
  by simp

lemma JSON_chars_UnicodeEscape:
  "JSON_chars (UnicodeEscape c @ r) = cons_char c (JSON_chars r)"
  unfolding UnicodeEscape_def Let_def append_Cons append_Nil
  by (rule JSON_chars_u [OF code_unit_UnicodeEscape])

lemma JSON_chars_QuoteJSONChar:
  "JSON_chars (QuoteJSONChar c @ r) = cons_char c (JSON_chars r)"
proof (cases "c \<in> {CHR 0x08, CHR 0x09, CHR 0x0A, CHR 0x0C, CHR 0x0D, CHR 0x22, CHR 0x5C}")
  case True
  then show ?thesis
    by (auto simp add: QuoteJSONChar_def unescape_def)
next
  case False
  show ?thesis
  proof (cases "(of_char c :: nat) < 32")
    case True
    with False show ?thesis
      by (simp add: QuoteJSONChar_def JSON_chars_UnicodeEscape)
  next
    case ge: False
    with False show ?thesis
      by (simp add: QuoteJSONChar_def)
  qed
qed

lemma JSON_chars_Quote:
  "JSON_chars (concat (map QuoteJSONChar s) @ CHR 0x22 # r) = Some (s, r)"
  by (induction s) (simp_all add: JSON_chars_QuoteJSONChar cons_char_def)


lemma skip_ws_Cons: "\<not> is_ws c \<Longrightarrow> skip_ws (c # r) = c # r"
  by (simp add: skip_ws_def)

lemma JSON_literal_true: "JSON_literal (''true'' @ r) = Some (True, r)"
  by (simp add: JSON_literal_def)

lemma JSON_literal_false: "JSON_literal (''false'' @ r) = Some (False, r)"
  by (simp add: JSON_literal_def)

lemma JSON_member_Serialize:
  assumes "\<not> is_ws c"
  shows "JSON_member (SerializeJSONProperty (k, b) @ c # r) = Some ((k, b), c # r)"
proof -
  let ?lit = "if b then ''true'' else ''false''"
  have 1: "SerializeJSONProperty (k, b) @ c # r =
           CHR 0x22 # (concat (map QuoteJSONChar k) @ CHR 0x22 # CHR '':'' # ?lit @ c # r)"
    by (simp add: SerializeJSONProperty_def QuoteJSONString_def)
  have 2: "skip_ws (?lit @ c # r) = ?lit @ c # r"
    by (simp add: skip_ws_def is_ws_def)
  have 3: "JSON_literal (?lit @ c # r) = Some (b, c # r)"
    using JSON_literal_true JSON_literal_false by (cases b) simp_all
  show ?thesis
    unfolding 1 JSON_member_def
    by (simp add: skip_ws_Cons is_ws_def JSON_chars_Quote 2 3 skip_ws_Cons [OF assms] del: append.simps)
qed

lemma JSON_members_join:
  "ps \<noteq> [] \<Longrightarrow>
   JSON_members obj (join_comma (map SerializeJSONProperty ps) @ ''}'') =
     Some (fold (\<lambda>(k, v). DAList.update k v) ps obj)"
proof (induction ps arbitrary: obj)
  case Nil
  then show ?case by simp
next
  case (Cons p ps)
  obtain k b where p: "p = (k, b)" by (cases p)
  show ?case
  proof (cases ps)
    case Nil
    have "JSON_member (SerializeJSONProperty (k, b) @ CHR ''}'' # []) = Some ((k, b), ''}'')"
      by (rule JSON_member_Serialize) (simp add: is_ws_def)
    then show ?thesis
      using Nil p by (simp add: skip_ws_def JSON_members.simps [of obj])
  next
    case (Cons q qs)
    let ?rest = "join_comma (map SerializeJSONProperty ps) @ ''}''"
    have "JSON_member (SerializeJSONProperty (k, b) @ CHR '','' # ?rest) = Some ((k, b), CHR '','' # ?rest)"
      by (rule JSON_member_Serialize) (simp add: is_ws_def)
    moreover have "join_comma (map SerializeJSONProperty (p # ps)) @ ''}'' =
                   SerializeJSONProperty (k, b) @ CHR '','' # ?rest"
      using Cons p by simp
    moreover have "JSON_members (DAList.update k b obj) ?rest =
                   Some (fold (\<lambda>(k, v). DAList.update k v) ps (DAList.update k b obj))"
      using Cons.IH Cons by simp
    ultimately show ?thesis
      using p by (simp add: JSON_members.simps [of obj])
  qed
qed

lemma fold_AList_update:
  "distinct (map fst (acc @ ps)) \<Longrightarrow> fold (\<lambda>(k, v). AList.update k v) ps acc = acc @ ps"
proof (induction ps arbitrary: acc)
  case Nil
  then show ?case by simp
next
  case (Cons p ps)
  obtain k v where p: "p = (k, v)" by (cases p)
  have "k \<notin> fst ` set acc" using Cons.prems p by auto
  then have "AList.update k v acc = acc @ [(k, v)]"
    by (induction acc) auto
  moreover have "distinct (map fst ((acc @ [(k, v)]) @ ps))" using Cons.prems p by simp
  ultimately show ?case using Cons.IH [of "acc @ [(k, v)]"] p by simp
qed

lemma impl_of_fold_update:
  "DAList.impl_of (fold (\<lambda>(k, v). DAList.update k v) ps obj) =
   fold (\<lambda>(k, v). AList.update k v) ps (DAList.impl_of obj)"
  by (induction ps arbitrary: obj) (auto simp add: DAList.update.rep_eq)

lemma fold_update_impl_of:
  "fold (\<lambda>(k, v). DAList.update k v) (DAList.impl_of M) DAList.empty = M"
proof (rule alist_ext)
  have "distinct (map fst ([] @ DAList.impl_of M))" by simp
  then show "DAList.impl_of (fold (\<lambda>(k, v). DAList.update k v) (DAList.impl_of M) DAList.empty) = DAList.impl_of M"
    unfolding impl_of_fold_update DAList.empty.rep_eq by (simp only: fold_AList_update append_Nil)
qed



subsection \<open>The merged table and the state initialiser\<close>



lemma spread_empty: "spread a DAList.empty = a"
  by transfer simp

lemma init_disabled:
  "key = None \<or> key = Some [] \<Longrightarrow> usePersistentState_init parse key v e = (v, e)"
  by auto


lemma init_loaded:
  "k \<noteq> [] \<Longrightarrow> \<not> getItem_throws e k \<Longrightarrow> storage e k = Some s \<Longrightarrow> parse s = Inr P \<Longrightarrow>
   usePersistentState_init parse (Some k) v e = (P, e\<lparr>calls := calls e @ [GetItem k]\<rparr>)"
  by (simp add: load_def localStorage_getItem_def)

lemma init_failed:
  "k \<noteq> [] \<Longrightarrow> getItem_throws e k \<or> (storage e k = Some s \<and> parse s = Inl err) \<Longrightarrow>
   usePersistentState_init parse (Some k) v e =
     (v, console_error (''Error retrieving '' @ k @ '' from localStorage:'')
           (e\<lparr>calls := calls e @ [GetItem k]\<rparr>))"
  by (auto simp add: load_def localStorage_getItem_def)

lemma calls_init:
  "k \<noteq> [] \<Longrightarrow> calls (snd (usePersistentState_init parse (Some k) v e)) = calls e @ [GetItem k]"
  by (auto simp add: load_def localStorage_getItem_def console_error_def split: sum.splits option.splits)

lemma effect_disabled:
  "key = None \<or> key = Some [] \<Longrightarrow> usePersistentState_effect stringify key s e = e"
  by auto

lemma calls_effect:
  "k \<noteq> [] \<Longrightarrow>
   calls (usePersistentState_effect stringify (Some k) s e) = calls e @ [SetItem k (stringify s)]"
  by (simp add: localStorage_setItem_def console_error_def)

lemma storage_effect:
  "k \<noteq> [] \<Longrightarrow> \<not> setItem_throws e k (stringify s) \<Longrightarrow>
   storage (usePersistentState_effect stringify (Some k) s e) = (storage e)(k \<mapsto> stringify s)"
  by (simp add: localStorage_setItem_def)

lemma setItem_throws_init:
  "setItem_throws (snd (usePersistentState_init parse key v e)) = setItem_throws e"
  by (cases key)
    (auto simp add: load_def localStorage_getItem_def console_error_def split: sum.splits option.splits)

lemma toggle_disabled:
  "persistKey p = None \<or> persistKey p = Some [] \<Longrightarrow> visibilityState p = Table M \<Longrightarrow>
   VisibilityProvider_toggle stringify n (p, e) =
     Inr (p\<lparr>visibilityState := Table (DAList.update n (js_not (Get M n)) M)\<rparr>, e)"
  by (auto simp add: VisibilityProvider_toggle_def)

lemma toggles_disabled:
  "persistKey p = None \<or> persistKey p = Some [] \<Longrightarrow> visibilityState p = Table M \<Longrightarrow>
   VisibilityProvider_toggles stringify names (p, e) =
     Inr (p\<lparr>visibilityState :=
              Table (fold (\<lambda>n M. DAList.update n (js_not (Get M n)) M) names M)\<rparr>, e)"
proof (induction names arbitrary: p M)
  case Nil
  then show ?case by simp
next
  case (Cons n names)
  let ?M = "DAList.update n (js_not (Get M n)) M"
  let ?p = "p\<lparr>visibilityState := Table ?M\<rparr>"
  have k: "persistKey ?p = None \<or> persistKey ?p = Some []" using Cons.prems(1) by simp
  have s: "visibilityState ?p = Table ?M" by simp
  show ?case
    using Cons.IH [OF k s] toggle_disabled [OF Cons.prems, of stringify n e] by simp
qed

lemma run_disabled:
  assumes "key = None \<or> key = Some []"
  shows "VisibilityProvider_run parse stringify R I key names e =
     Inr (\<lparr>persistKey = key,
           visibilityState =
             Table (fold (\<lambda>n M. DAList.update n (js_not (Get M n)) M) names
                      (mergedInitialState R I))\<rparr>, e)"
proof -
  let ?p = "\<lparr>persistKey = key, visibilityState = Table (mergedInitialState R I)\<rparr>"
  have "VisibilityProvider_mount parse stringify R I key e = (?p, e)"
    using assms
    by (auto simp add: VisibilityProvider_mount_def VisibilityProvider_state_def)
  moreover have "persistKey ?p = None \<or> persistKey ?p = Some []" using assms by simp
  moreover have "visibilityState ?p = Table (mergedInitialState R I)" by simp
  ultimately show ?thesis
    using toggles_disabled [of ?p "mergedInitialState R I" stringify names e]
    by (simp add: VisibilityProvider_run_def)
qed

subsection \<open>What a toggle does to the value a reader resolves\<close>

lemma useBlockVisibility_Table:
  "ctx_visibilityState c = Table M \<Longrightarrow>
   useBlockVisibility n d (Some c) = Inr (nullish (Get M n) d)"
  by (simp add: useBlockVisibility_def useVisibility_def)

lemma JSON_parse_empty_object: "JSON_parse ''{}'' = Inr (Table DAList.empty)"
  by (simp add: JSON_parse_def skip_ws_def is_ws_def)


lemma toggle_flips_present:
  "DAList.lookup M n = Some b \<Longrightarrow>
   nullish (Get (DAList.update n (js_not (Get M n)) M) n) d = Boolean (\<not> b) \<and>
   nullish (Get M n) d = Boolean b"
  by (simp add: Get_update Get_own nullish_def js_not_def truthy_def)

lemma toggle_flips_iff:
  "n \<notin> set Object_prototype \<Longrightarrow>
   (truthy (nullish (Get (DAList.update n (js_not (Get M n)) M) n) d) =
      (\<not> truthy (nullish (Get M n) d)))
   \<longleftrightarrow> \<not> (DAList.lookup M n = None \<and> d)"
  by (auto simp add: Get_update Get_def nullish_def js_not_def truthy_def split: option.splits)

section \<open>The claims\<close>

text \<open>
  Claim C1. A toggle of \<open>n\<close> should flip the value a reader resolves for \<open>n\<close>, also
  when \<open>n\<close> is absent from the table. The code is evaluated at an input where it does
  not: the block \<^verbatim>\<open>sidebar\<close> is registered with default \<^verbatim>\<open>true\<close>, the provider has the
  \<^verbatim>\<open>persistKey\<close> \<^verbatim>\<open>app\<close>, and \<^verbatim>\<open>localStorage\<close> holds the text \<^verbatim>\<open>{}\<close> under that key.
  In each of the three sessions no toggle throws (the outer \<open>Inr\<close>). The reader
  resolves \<^verbatim>\<open>true\<close> at the start and still \<^verbatim>\<open>true\<close> after one toggle, because
  \<^verbatim>\<open>!prevState[name]\<close> reads the absent entry as \<^verbatim>\<open>undefined\<close>; after two toggles it
  resolves \<^verbatim>\<open>false\<close>, which is not the value at the start.
\<close>

theorem toggle_absent_default_true:
  "map_sum id (useBlockVisibility ''sidebar'' True \<circ> Some \<circ> VisibilityProvider_value \<circ> fst)
     (VisibilityProvider_run JSON_parse JSON_stringify (DAList.update ''sidebar'' True DAList.empty)
        None (Some ''app'') [] (quiet_env [''app'' \<mapsto> ''{}''])) = Inr (Inr (Boolean True)) \<and>
   map_sum id (useBlockVisibility ''sidebar'' True \<circ> Some \<circ> VisibilityProvider_value \<circ> fst)
     (VisibilityProvider_run JSON_parse JSON_stringify (DAList.update ''sidebar'' True DAList.empty)
        None (Some ''app'') [''sidebar''] (quiet_env [''app'' \<mapsto> ''{}''])) = Inr (Inr (Boolean True)) \<and>
   map_sum id (useBlockVisibility ''sidebar'' True \<circ> Some \<circ> VisibilityProvider_value \<circ> fst)
     (VisibilityProvider_run JSON_parse JSON_stringify (DAList.update ''sidebar'' True DAList.empty)
        None (Some ''app'') [''sidebar'', ''sidebar''] (quiet_env [''app'' \<mapsto> ''{}''])) =
     Inr (Inr (Boolean False))"
proof -
  let ?e = "quiet_env [''app'' \<mapsto> ''{}'']"
  have start: "VisibilityProvider_state JSON_parse (DAList.update ''sidebar'' True DAList.empty) None
                 (Some ''app'') ?e = (Table DAList.empty, ?e\<lparr>calls := calls ?e @ [GetItem ''app'']\<rparr>)"
    unfolding VisibilityProvider_state_def
    by (rule init_loaded [where s = "''{}''"]) (simp_all add: quiet_env_def JSON_parse_empty_object)
  have sidebar: "''sidebar'' \<notin> set Object_prototype"
    by (simp add: Object_prototype_def)
  show ?thesis
    using sidebar
    by (simp add: VisibilityProvider_run_def VisibilityProvider_mount_def start
        VisibilityProvider_toggle_def useBlockVisibility_def useVisibility_def
        VisibilityProvider_value_def Get_def lookup_update nullish_def js_not_def truthy_def)
qed




text \<open>
  Claim C3, as stated, at a name that \<^verbatim>\<open>Object.prototype\<close> defines. The block
  \<^verbatim>\<open>constructor\<close> has the default \<^verbatim>\<open>false\<close> and the live table is empty, so the key is
  absent; the read \<^verbatim>\<open>visibilityState[name]\<close> finds the inherited member, the default is
  not consulted, and the block renders its children. And registering a block under the
  name \<^verbatim>\<open>__proto__\<close> records no default.
\<close>

theorem reader_inherited_name_counterexample:
  "DAList.lookup DAList.empty ''constructor'' = None \<and>
   useBlockVisibility ''constructor'' False
     (Some \<lparr>ctx_visibilityState = Table DAList.empty, ctx_toggleVisibility = toggleVisibility\<rparr>) =
     Inr Inherited \<and>
   fst (snd (createVisibilityBlock ''constructor'' (Some False) DAList.empty))
     (Some \<lparr>ctx_visibilityState = Table DAList.empty, ctx_toggleVisibility = toggleVisibility\<rparr>) =
     Inr True \<and>
   DAList.lookup (fst (createVisibilityBlock ''__proto__'' (Some False) DAList.empty)) ''__proto__'' =
     None"
  by (simp add: createVisibilityBlock_def NamedBlock_def useBlockVisibility_def useVisibility_def
      Get_def Object_prototype_def nullish_def truthy_def PutValue_def)

text \<open>
  Claim C3, amended. Let the live state be a table and \<open>n\<close> a block name that is present
  in the table or is not the name of a member of \<^verbatim>\<open>Object.prototype\<close>. The reader of a
  block created by \<^verbatim>\<open>createVisibilityBlock(n, dv)\<close> returns the entry of \<open>n\<close> in the live
  table when there is one, else the default given at registration, else \<^verbatim>\<open>true\<close> when
  no default was given. The block renders its children exactly when that value is
  \<^verbatim>\<open>true\<close>, and the toggle component shows the same value. Unless \<open>n\<close> is
  \<^verbatim>\<open>__proto__\<close>, the default recorded for \<open>n\<close> in the registration table is the one the
  reader falls back to. An absent entry resolves to \<^verbatim>\<open>false\<close> only when the block was
  registered with the default \<^verbatim>\<open>false\<close>.
\<close>

theorem reader_precedence:
  assumes "DAList.lookup M n \<noteq> None \<or> n \<notin> set Object_prototype"
    and "ctx_visibilityState c = Table M"
  shows
    "useBlockVisibility n (case dv of Some d \<Rightarrow> d | None \<Rightarrow> True) (Some c) =
       Inr (Boolean (case DAList.lookup M n of
                       Some b \<Rightarrow> b
                     | None \<Rightarrow> (case dv of Some d \<Rightarrow> d | None \<Rightarrow> True))) \<and>
     fst (snd (createVisibilityBlock n dv R)) (Some c) =
       Inr (case DAList.lookup M n of
              Some b \<Rightarrow> b
            | None \<Rightarrow> (case dv of Some d \<Rightarrow> d | None \<Rightarrow> True)) \<and>
     map_sum id fst (snd (snd (createVisibilityBlock n dv R)) (Some c)) =
       fst (snd (createVisibilityBlock n dv R)) (Some c) \<and>
     (n \<noteq> ''__proto__'' \<longrightarrow>
        DAList.lookup (fst (createVisibilityBlock n dv R)) n =
          Some (case dv of Some d \<Rightarrow> d | None \<Rightarrow> True)) \<and>
     (DAList.lookup M n = None \<and>
      fst (snd (createVisibilityBlock n dv R)) (Some c) = Inr False \<longrightarrow> dv = Some False)"
proof -
  let ?d = "case dv of Some d \<Rightarrow> d | None \<Rightarrow> True"
  let ?v = "case DAList.lookup M n of Some b \<Rightarrow> b | None \<Rightarrow> ?d"
  have g: "nullish (Get M n) ?d = Boolean ?v"
  proof (cases "DAList.lookup M n")
    case None
    with assms(1) have "n \<notin> set Object_prototype" by simp
    with None show ?thesis by (simp add: Get_absent nullish_def)
  next
    case (Some b)
    then show ?thesis by (simp add: Get_own nullish_def)
  qed
  have r: "useBlockVisibility n ?d (Some c) = Inr (Boolean ?v)"
    using useBlockVisibility_Table [OF assms(2)] g by simp
  have t: "useToggleState n ?d (Some c) = Inr (Boolean ?v, ctx_toggleVisibility c n)"
    using assms(2) g by (simp add: useToggleState_def useVisibility_def)
  have b: "fst (snd (createVisibilityBlock n dv R)) (Some c) = Inr ?v"
    using r by (simp add: createVisibilityBlock_def Let_def NamedBlock_def truthy_def)
  have tg: "map_sum id fst (snd (snd (createVisibilityBlock n dv R)) (Some c)) = Inr ?v"
    using t by (simp add: createVisibilityBlock_def Let_def NamedBlockToggle_def truthy_def)
  have rec: "n \<noteq> ''__proto__'' \<longrightarrow>
        DAList.lookup (fst (createVisibilityBlock n dv R)) n = Some ?d"
    by (simp add: createVisibilityBlock_def Let_def lookup_PutValue)
  have nf: "DAList.lookup M n = None \<and>
      fst (snd (createVisibilityBlock n dv R)) (Some c) = Inr False \<longrightarrow> dv = Some False"
    unfolding b by (auto split: option.splits)
  show ?thesis
    using r b tg rec nf by simp
qed

theorem reader_precedence_witness:
  "''panel'' \<notin> set Object_prototype \<and>
   fst (snd (createVisibilityBlock ''panel'' (Some False) DAList.empty))
     (Some (VisibilityProvider_value \<lparr>persistKey = None, visibilityState = Table DAList.empty\<rparr>)) =
     Inr False \<and>
   fst (snd (createVisibilityBlock ''panel'' None DAList.empty))
     (Some (VisibilityProvider_value \<lparr>persistKey = None, visibilityState = Table DAList.empty\<rparr>)) =
     Inr True \<and>
   fst (snd (createVisibilityBlock ''panel'' None DAList.empty))
     (Some (VisibilityProvider_value
        \<lparr>persistKey = None, visibilityState = Table (DAList.update ''panel'' False DAList.empty)\<rparr>)) =
     Inr False \<and>
   DAList.lookup (fst (createVisibilityBlock ''panel'' None DAList.empty)) ''panel'' = Some True"
proof -
  have h: "DAList.lookup M ''panel'' \<noteq> None \<or> ''panel'' \<notin> set Object_prototype"
    for M :: VisibilityState
    by (simp add: Object_prototype_def)
  have c: "ctx_visibilityState (VisibilityProvider_value \<lparr>persistKey = None, visibilityState = Table M\<rparr>) =
           Table M" for M
    by (simp add: VisibilityProvider_value_def)
  have a1: "fst (snd (createVisibilityBlock ''panel'' (Some False) DAList.empty))
     (Some (VisibilityProvider_value \<lparr>persistKey = None, visibilityState = Table DAList.empty\<rparr>)) =
     Inr False"
    using reader_precedence [OF h c, where dv = "Some False" and R = DAList.empty,
        THEN conjunct2, THEN conjunct1, of DAList.empty]
    by simp
  have a2: "fst (snd (createVisibilityBlock ''panel'' None DAList.empty))
     (Some (VisibilityProvider_value \<lparr>persistKey = None, visibilityState = Table DAList.empty\<rparr>)) =
     Inr True"
    using reader_precedence [OF h c, where dv = None and R = DAList.empty,
        THEN conjunct2, THEN conjunct1, of DAList.empty]
    by simp
  have a3: "fst (snd (createVisibilityBlock ''panel'' None DAList.empty))
     (Some (VisibilityProvider_value
        \<lparr>persistKey = None, visibilityState = Table (DAList.update ''panel'' False DAList.empty)\<rparr>)) =
     Inr False"
    using reader_precedence [OF h c, where dv = None and R = DAList.empty,
        THEN conjunct2, THEN conjunct1, of "DAList.update ''panel'' False DAList.empty"]
    by simp
  have neq: "''panel'' \<noteq> ''__proto__''" by simp
  have a4: "DAList.lookup (fst (createVisibilityBlock ''panel'' None DAList.empty)) ''panel'' = Some True"
    using reader_precedence [OF h c, where dv = None and R = DAList.empty,
        THEN conjunct2, THEN conjunct2, THEN conjunct2, THEN conjunct1, THEN mp, OF neq]
    by simp
  have np: "''panel'' \<notin> set Object_prototype"
    by (simp add: Object_prototype_def)
  show ?thesis
    using np a1 a2 a3 a4 by blast
qed






text \<open>
  Claim C6. When a \<^verbatim>\<open>persistKey\<close> is set and the load fails, because
  \<^verbatim>\<open>localStorage.getItem\<close> throws or because \<^verbatim>\<open>JSON.parse\<close> throws on the stored text,
  the provider starts with the merged table of registration defaults and
  \<^verbatim>\<open>initialState\<close>. The failure does not leave the initialiser: the mounted provider
  holds that table, and the message of the \<^verbatim>\<open>catch\<close> clause is on the console.
\<close>

theorem load_failure_falls_back:
  assumes "getItem_throws e k \<or> (storage e k = Some s \<and> parse s = Inl err)"
  shows "fst (VisibilityProvider_state parse R I (Some k) e) = Table (mergedInitialState R I) \<and>
         visibilityState (fst (VisibilityProvider_mount parse stringify R I (Some k) e)) =
           Table (mergedInitialState R I) \<and>
         (k \<noteq> [] \<longrightarrow> console (snd (VisibilityProvider_state parse R I (Some k) e)) =
            console e @ [''Error retrieving '' @ k @ '' from localStorage:''])"
proof (cases "k = []")
  case True
  then show ?thesis
    by (simp add: VisibilityProvider_state_def VisibilityProvider_mount_def)
next
  case False
  from init_failed [where parse = parse and s = s and err = err, OF False assms]
  show ?thesis
    using False
    by (simp add: VisibilityProvider_state_def VisibilityProvider_mount_def console_error_def)
qed

theorem load_failure_falls_back_witness:
  \<open>(storage (quiet_env [''app'' \<mapsto> ''{oops'']) ''app'' = Some ''{oops'' \<and>
     JSON_parse ''{oops'' = Inl SyntaxError) \<and>
    fst (VisibilityProvider_state JSON_parse (DAList.update ''panel'' False DAList.empty) None
           (Some ''app'') (quiet_env [''app'' \<mapsto> ''{oops''])) =
      Table (DAList.update ''panel'' False DAList.empty)\<close>
proof -
  have h: \<open>getItem_throws (quiet_env [''app'' \<mapsto> ''{oops'']) ''app'' \<or>
           (storage (quiet_env [''app'' \<mapsto> ''{oops'']) ''app'' = Some ''{oops'' \<and>
            JSON_parse ''{oops'' = Inl SyntaxError)\<close>
    by (simp add: quiet_env_def JSON_parse_def skip_ws_def is_ws_def JSON_members.simps
        JSON_member_def)
  have m: "mergedInitialState (DAList.update ''panel'' False DAList.empty) None =
           DAList.update ''panel'' False DAList.empty"
    by (simp add: mergedInitialState_def spread_empty)
  show ?thesis
    using h load_failure_falls_back [where parse = JSON_parse and s = "''{oops''" and err = SyntaxError
        and R = "DAList.update ''panel'' False DAList.empty" and I = None, OF h]
    by (simp add: m quiet_env_def)
qed

text \<open>
  Claim C7. With \<^verbatim>\<open>persistKey\<close> absent or \<^verbatim>\<open>null\<close>, mounting the provider and any
  sequence of toggles make no call of \<^verbatim>\<open>localStorage.getItem\<close> or
  \<^verbatim>\<open>localStorage.setItem\<close>: the session runs to its end (the result is an \<open>Inr\<close>), the
  record of calls is what it was, and so is the store.
\<close>

theorem no_adapter_call_without_persistKey:
  "map_sum id (calls \<circ> snd) (VisibilityProvider_run parse stringify R I None names e) =
     Inr (calls e) \<and>
   map_sum id (storage \<circ> snd) (VisibilityProvider_run parse stringify R I None names e) =
     Inr (storage e)"
  by (simp add: run_disabled)

text \<open>
  Claim C8. Serializing the state with \<^verbatim>\<open>JSON.stringify\<close> and parsing the text with
  \<^verbatim>\<open>JSON.parse\<close> gives the state back: every table of booleans, and \<^verbatim>\<open>null\<close>.
\<close>

theorem JSON_parse_stringify: "JSON_parse (JSON_stringify s) = Inr s"
proof (cases s)
  case Null
  then show ?thesis by (simp add: JSON_parse_def skip_ws_def is_ws_def)
next
  case (Table M)
  show ?thesis
  proof (cases "DAList.impl_of M")
    case Nil
    then have "DAList.impl_of M = DAList.impl_of DAList.empty" by (simp add: DAList.empty.rep_eq)
    then have "M = DAList.empty" by (rule alist_ext)
    moreover have "JSON_parse ''{}'' = Inr (Table DAList.empty)"
      by (simp add: JSON_parse_def skip_ws_def is_ws_def)
    ultimately show ?thesis using Nil Table by simp
  next
    case (Cons p ps)
    obtain k b where p: "p = (k, b)" by (cases p)
    let ?body = "join_comma (map SerializeJSONProperty (DAList.impl_of M)) @ ''}''"
    have ne: "DAList.impl_of M \<noteq> []" using Cons by simp
    have "\<exists>t. ?body = CHR 0x22 # t"
      using Cons p by (cases ps) (simp_all add: SerializeJSONProperty_def QuoteJSONString_def)
    then obtain t where t: "?body = CHR 0x22 # t" ..
    have sk: "skip_ws ?body = CHR 0x22 # t"
      unfolding t by (simp add: skip_ws_def is_ws_def)
    have "JSON_members DAList.empty ?body = Some M"
      using JSON_members_join [OF ne, of DAList.empty] by (simp only: fold_update_impl_of)
    moreover have "JSON_stringify (Table M) = CHR ''{'' # ?body" by simp
    ultimately show ?thesis
      using Table by (simp add: JSON_parse_def skip_ws_Cons is_ws_def sk)
  qed
qed

text \<open>
  Claim C9. Mounting a provider with a non-empty \<^verbatim>\<open>persistKey\<close> calls
  \<^verbatim>\<open>localStorage.getItem\<close> and then \<^verbatim>\<open>localStorage.setItem\<close> with the serialized
  starting state, before any toggle; unless that write throws, the store then holds the
  serialized starting state under the key.
\<close>

theorem mount_saves_starting_map:
  assumes "k \<noteq> []"
    and "VisibilityProvider_mount parse stringify R I (Some k) e = (p, e')"
  shows "visibilityState p = fst (VisibilityProvider_state parse R I (Some k) e) \<and>
         calls e' = calls e @ [GetItem k, SetItem k (stringify (visibilityState p))] \<and>
         (\<not> setItem_throws e k (stringify (visibilityState p)) \<longrightarrow>
            storage e' k = Some (stringify (visibilityState p)))"
proof -
  obtain s e1 where st: "VisibilityProvider_state parse R I (Some k) e = (s, e1)"
    by (cases "VisibilityProvider_state parse R I (Some k) e")
  with assms(2) have p: "p = \<lparr>persistKey = Some k, visibilityState = s\<rparr>"
    and e': "e' = usePersistentState_effect stringify (Some k) s e1"
    by (simp_all add: VisibilityProvider_mount_def)
  have e1: "e1 = snd (usePersistentState_init parse (Some k) (Table (mergedInitialState R I)) e)"
    using st by (simp add: VisibilityProvider_state_def)
  have c1: "calls e1 = calls e @ [GetItem k]"
    unfolding e1 using assms(1) by (rule calls_init)
  have t1: "setItem_throws e1 = setItem_throws e"
    unfolding e1 by (rule setItem_throws_init)
  have "calls e' = calls e @ [GetItem k, SetItem k (stringify s)]"
    unfolding e' using calls_effect [OF assms(1), of stringify s e1] c1 by simp
  moreover have "\<not> setItem_throws e k (stringify s) \<longrightarrow> storage e' k = Some (stringify s)"
    unfolding e' using storage_effect [OF assms(1), of e1 stringify s] t1 by simp
  ultimately show ?thesis
    using p st by simp
qed

theorem mount_saves_starting_map_witness:
  \<open>''k'' \<noteq> [] \<and>
   calls (snd (VisibilityProvider_mount JSON_parse JSON_stringify
            (DAList.update ''panel'' True DAList.empty) None (Some ''k'') (quiet_env Map.empty))) =
     [GetItem ''k'', SetItem ''k'' ''{"panel":true}''] \<and>
   storage (snd (VisibilityProvider_mount JSON_parse JSON_stringify
            (DAList.update ''panel'' True DAList.empty) None (Some ''k'') (quiet_env Map.empty))) ''k'' =
     Some ''{"panel":true}''\<close>
proof -
  let ?R = "DAList.update ''panel'' True DAList.empty"
  let ?m = "VisibilityProvider_mount JSON_parse JSON_stringify ?R None (Some ''k'') (quiet_env Map.empty)"
  have k: "''k'' \<noteq> []" by simp
  have m: "?m = (fst ?m, snd ?m)" by simp
  have s: "fst (VisibilityProvider_state JSON_parse ?R None (Some ''k'') (quiet_env Map.empty)) = Table ?R"
    by (simp add: VisibilityProvider_state_def load_def localStorage_getItem_def quiet_env_def
        mergedInitialState_def spread_empty)
  have j: \<open>JSON_stringify (Table ?R) = ''{"panel":true}''\<close>
    by (simp add: DAList.update.rep_eq DAList.empty.rep_eq
        SerializeJSONProperty_def QuoteJSONString_def QuoteJSONChar_def)
  have t: "\<not> setItem_throws (quiet_env Map.empty) ''k'' (JSON_stringify (Table ?R))"
    and c: "calls (quiet_env Map.empty) = []"
    by (simp_all add: quiet_env_def)
  from mount_saves_starting_map [OF k m] have v: "visibilityState (fst ?m) = Table ?R"
    by (simp only: s)
  show ?thesis
    using mount_saves_starting_map [OF k m] k t c
    unfolding v j by simp
qed

text \<open>
  Claim C10. The empty string as \<^verbatim>\<open>persistKey\<close> disables persistence as \<^verbatim>\<open>null\<close>
  does: mounting and any sequence of toggles make no call of the adapter, the
  environment and the state are the ones of the same session with \<^verbatim>\<open>null\<close>, and the
  provider starts with the merged table.
\<close>

theorem empty_persistKey_disables_persistence:
  "map_sum id (calls \<circ> snd) (VisibilityProvider_run parse stringify R I (Some []) names e) =
     Inr (calls e) \<and>
   map_sum id snd (VisibilityProvider_run parse stringify R I (Some []) names e) =
     map_sum id snd (VisibilityProvider_run parse stringify R I None names e) \<and>
   map_sum id (visibilityState \<circ> fst)
       (VisibilityProvider_run parse stringify R I (Some []) names e) =
     map_sum id (visibilityState \<circ> fst)
       (VisibilityProvider_run parse stringify R I None names e) \<and>
   fst (VisibilityProvider_state parse R I (Some []) e) = Table (mergedInitialState R I)"
  by (simp add: run_disabled VisibilityProvider_state_def)

end
